theory Spec2Isabelle
  imports Main "HOL-Library.FSet"
begin

section \<open>Python strings\<close>

text \<open>
  A Python \<open>str\<close> is modelled as a \<open>string\<close>, one \<open>char\<close> per code point below 256.
  \<open>str.isspace\<close> on a single character: the code points Unicode classifies as
  whitespace (tab to carriage return, the four separators 28 to 31, space, NEL, NBSP).
\<close>

definition isspace :: "char \<Rightarrow> bool" where
  "isspace c = (of_char c \<in> {9, 10, 11, 12, 13, 28, 29, 30, 31, 32, 133, 160 :: nat})"

text \<open>\<open>str.strip()\<close> with no argument: leading and trailing whitespace removed.\<close>

definition lstrip :: "string \<Rightarrow> string" where
  "lstrip s = dropWhile isspace s"

definition rstrip :: "string \<Rightarrow> string" where
  "rstrip s = rev (dropWhile isspace (rev s))"

definition strip :: "string \<Rightarrow> string" where
  "strip s = rstrip (lstrip s)"

text \<open>\<open>sep.join(parts)\<close>.\<close>

fun str_join :: "string \<Rightarrow> string list \<Rightarrow> string" where
  "str_join sep [] = []"
| "str_join sep [x] = x"
| "str_join sep (x # y # ys) = x @ sep @ str_join sep (y # ys)"

section \<open>Exceptions\<close>

text \<open>
  Every exception the program meets derives from Python's \<open>Exception\<close>. FastAPI's
  \<open>HTTPException\<close> (a subclass of \<open>Exception\<close>) carries a status code and a detail;
  any other exception is represented by its message, the value of \<open>str(e)\<close>.
\<close>

datatype exn = HTTPException nat string | Exception string

section \<open>The scraper (chatbot.py, class WebsiteScraper)\<close>

text \<open>
  What \<open>scrape_page\<close> holds after \<open>BeautifulSoup(response.content, 'html.parser')\<close> and
  after the script, style, nav, footer and header elements have been decomposed: the
  text nodes of the tree in document order, and the \<open>href\<close> value of every remaining
  \<open>a\<close> element that has one.
\<close>

record soup =
  strings :: "string list"
  hrefs :: "string list"

text \<open>
  The world outside the program: \<open>urlparse(url).netloc\<close>, \<open>urljoin(base, href)\<close> (both
  raise \<open>ValueError\<close> on a malformed URL) and the outcome of
  \<open>requests.get\<close>, \<open>raise_for_status\<close> and the parse of one URL.
\<close>

record web =
  netloc :: "string \<Rightarrow> exn + string"
  urljoin :: "string \<Rightarrow> string \<Rightarrow> exn + string"
  fetch :: "string \<Rightarrow> exn + soup"

record scraper =
  base_url :: string
  max_pages :: nat
  visited_urls :: "string fset"
  domain :: string

text \<open>\<open>__init__\<close>: \<open>max_pages\<close> is a page count (20 wherever the program builds a scraper).\<close>

definition WebsiteScraper :: "web \<Rightarrow> string \<Rightarrow> nat \<Rightarrow> exn + scraper" where
  "WebsiteScraper env url cap =
     (case netloc env url of
        Inl e \<Rightarrow> Inl e
      | Inr d \<Rightarrow> Inr \<lparr>base_url = url, max_pages = cap, visited_urls = {||}, domain = d\<rparr>)"

definition is_valid_url :: "web \<Rightarrow> scraper \<Rightarrow> string \<Rightarrow> exn + bool" where
  "is_valid_url env self url =
     (case netloc env url of
        Inl e \<Rightarrow> Inl e
      | Inr d \<Rightarrow> Inr (d = domain self))"

text \<open>
  \<open>soup.get_text(separator=' ', strip=True)\<close>: every text node stripped, the empty ones
  dropped, the rest joined by the separator.
\<close>

definition get_text :: "string list \<Rightarrow> string" where
  "get_text nodes = str_join '' '' (filter (\<lambda>s. s \<noteq> []) (map strip nodes))"

text \<open>The loop over \<open>soup.find_all('a', href=True)\<close>; the first exception ends it.\<close>

fun collect_links :: "web \<Rightarrow> scraper \<Rightarrow> string \<Rightarrow> string list \<Rightarrow> exn + string list" where
  "collect_links env self url [] = Inr []"
| "collect_links env self url (href # rest) =
     (case urljoin env url href of
        Inl e \<Rightarrow> Inl e
      | Inr absolute_url \<Rightarrow>
          (case is_valid_url env self absolute_url of
             Inl e \<Rightarrow> Inl e
           | Inr valid \<Rightarrow>
               (case collect_links env self url rest of
                  Inl e \<Rightarrow> Inl e
                | Inr links \<Rightarrow>
                    Inr (if valid \<and> absolute_url |\<notin>| visited_urls self
                         then absolute_url # links else links))))"

text \<open>\<open>scrape_page\<close>: any exception inside the \<open>try\<close> gives \<open>(None, [])\<close>.\<close>

definition scrape_page :: "web \<Rightarrow> scraper \<Rightarrow> string \<Rightarrow> string option \<times> string list" where
  "scrape_page env self url =
     (case fetch env url of
        Inl e \<Rightarrow> (None, [])
      | Inr page \<Rightarrow>
          (let text = get_text (strings page) in
           case collect_links env self url (hrefs page) of
             Inl e \<Rightarrow> (None, [])
           | Inr links \<Rightarrow> (Some text, links)))"

text \<open>The dictionary \<open>{'content': text, 'source': url}\<close>.\<close>

record document =
  doc_content :: string
  doc_source :: string

text \<open>
  The state of the loop of \<open>scrape_website\<close>: the scraper object, the queue, the
  documents so far, and the URLs handed to \<open>scrape_page\<close> (hence to \<open>requests.get\<close>),
  in order.
\<close>

record crawl =
  self :: scraper
  to_visit :: "string list"
  documents :: "document list"
  requested :: "string list"

text \<open>
  One test of the \<open>while\<close> condition and, where it holds, one run of the body:
  \<open>None\<close> when the loop exits.
\<close>

definition scrape_step :: "web \<Rightarrow> crawl \<Rightarrow> crawl option" where
  "scrape_step env st =
     (case to_visit st of
        [] \<Rightarrow> None
      | url # rest \<Rightarrow>
          if \<not> fcard (visited_urls (self st)) < max_pages (self st) then None
          else if url |\<in>| visited_urls (self st) then Some (st\<lparr>to_visit := rest\<rparr>)
          else
            (let self' = (self st)\<lparr>visited_urls := finsert url (visited_urls (self st))\<rparr>;
                 (text, links) = scrape_page env self' url
             in Some
               \<lparr>self = self',
                to_visit = rest @ filter (\<lambda>link. link |\<notin>| visited_urls self') links,
                documents =
                  (case text of
                     None \<Rightarrow> documents st
                   | Some t \<Rightarrow>
                       if t \<noteq> [] \<and> 100 < length (strip t)
                       then documents st @ [\<lparr>doc_content = t, doc_source = url\<rparr>]
                       else documents st),
                requested = requested st @ [url]\<rparr>))"

lemma scrape_step_measure:
  assumes "scrape_step env st = Some st'"
  shows "max_pages (self st') - fcard (visited_urls (self st'))
           < max_pages (self st) - fcard (visited_urls (self st))
         \<or> (max_pages (self st') - fcard (visited_urls (self st'))
              = max_pages (self st) - fcard (visited_urls (self st))
            \<and> length (to_visit st') < length (to_visit st))"
  using assms
  by (auto simp: scrape_step_def Let_def fcard_finsert_disjoint
           split: list.splits if_splits prod.splits)

function scrape_loop :: "web \<Rightarrow> crawl \<Rightarrow> crawl" where
  "scrape_loop env st =
     (case scrape_step env st of None \<Rightarrow> st | Some st' \<Rightarrow> scrape_loop env st')"
  by pat_completeness auto
termination
proof (relation "measures [\<lambda>(env, st). max_pages (self st) - fcard (visited_urls (self st)),
                           \<lambda>(env, st). length (to_visit st)]")
  show "wf (measures [\<lambda>(env, st). max_pages (self st) - fcard (visited_urls (self st)),
                      \<lambda>(env, st :: crawl). length (to_visit st)])"
    by simp
next
  fix env :: web and st st' :: crawl
  assume "scrape_step env st = Some st'"
  from scrape_step_measure [OF this]
  show "((env, st'), (env, st))
          \<in> measures [\<lambda>(env, st). max_pages (self st) - fcard (visited_urls (self st)),
                       \<lambda>(env, st). length (to_visit st)]"
    by auto
qed

declare scrape_loop.simps [simp del]

text \<open>The states at the head of the loop, from the first test to the exit.\<close>

function scrape_states :: "web \<Rightarrow> crawl \<Rightarrow> crawl list" where
  "scrape_states env st =
     st # (case scrape_step env st of None \<Rightarrow> [] | Some st' \<Rightarrow> scrape_states env st')"
  by pat_completeness auto
termination
proof (relation "measures [\<lambda>(env, st). max_pages (self st) - fcard (visited_urls (self st)),
                           \<lambda>(env, st). length (to_visit st)]")
  show "wf (measures [\<lambda>(env, st). max_pages (self st) - fcard (visited_urls (self st)),
                      \<lambda>(env, st :: crawl). length (to_visit st)])"
    by simp
next
  fix env :: web and st st' :: crawl
  assume "scrape_step env st = Some st'"
  from scrape_step_measure [OF this]
  show "((env, st'), (env, st))
          \<in> measures [\<lambda>(env, st). max_pages (self st) - fcard (visited_urls (self st)),
                       \<lambda>(env, st). length (to_visit st)]"
    by auto
qed

declare scrape_states.simps [simp del]

text \<open>The state in which \<open>scrape_website\<close> enters its loop.\<close>

definition crawl_start :: "scraper \<Rightarrow> crawl" where
  "crawl_start scr = \<lparr>self = scr, to_visit = [base_url scr], documents = [], requested = []\<rparr>"

text \<open>\<open>scrape_website\<close>: the final state holds the returned documents.\<close>

definition scrape_website :: "web \<Rightarrow> scraper \<Rightarrow> crawl" where
  "scrape_website env scr = scrape_loop env (crawl_start scr)"

subsection \<open>A small site\<close>

text \<open>
  A home page with 120 characters of text that links twice to an about page and once
  to another host; the about page is short and links back.
\<close>

definition demo_web :: web where
  "demo_web =
     \<lparr>netloc = (\<lambda>u. if u = ''https://other.org/'' then Inr ''other.org'' else Inr ''example.com''),
      urljoin = (\<lambda>b h. if h = ''/about'' then Inr ''https://example.com/about'' else Inr h),
      fetch = (\<lambda>u.
        if u = ''https://example.com''
        then Inr \<lparr>strings = [replicate 120 CHR ''a'', ''  ''],
                  hrefs = [''/about'', ''https://other.org/'', ''/about'']\<rparr>
        else if u = ''https://example.com/about''
        then Inr \<lparr>strings = ['' About us ''], hrefs = [''https://example.com'']\<rparr>
        else Inl (Exception ''404''))\<rparr>"

definition demo_scraper :: scraper where
  "demo_scraper =
     \<lparr>base_url = ''https://example.com'', max_pages = 5, visited_urls = {||},
      domain = ''example.com''\<rparr>"

section \<open>More of Python's strings\<close>

definition nl :: string where
  "nl = [CHR 0x0A]"

text \<open>\<open>str(n)\<close> for a non-negative integer: its decimal digits.\<close>

fun str_nat :: "nat \<Rightarrow> string" where
  "str_nat n =
     (if n < 10 then [char_of (48 + n)]
      else str_nat (n div 10) @ [char_of (48 + n mod 10)])"

declare str_nat.simps [simp del]

text \<open>
  \<open>str.lower()\<close> below code point 256: the letters A to Z and the accented capitals
  192 to 222 (the multiplication sign 215 apart) move up by 32.
\<close>

definition lower_char :: "char \<Rightarrow> char" where
  "lower_char c =
     (let n = (of_char c :: nat)
      in if (65 \<le> n \<and> n \<le> 90) \<or> (192 \<le> n \<and> n \<le> 222 \<and> n \<noteq> 215)
         then char_of (n + 32) else c)"

definition lower :: "string \<Rightarrow> string" where
  "lower s = map lower_char s"

text \<open>The slice \<open>xs[-n:]\<close>.\<close>

definition last_n :: "nat \<Rightarrow> 'a list \<Rightarrow> 'a list" where
  "last_n n xs = drop (length xs - n) xs"

text \<open>
  \<open>str(e)\<close>: Starlette's \<open>HTTPException.__str__\<close> gives the status code, a colon and
  the detail; any other exception is represented by its message.
\<close>

fun str_exn :: "exn \<Rightarrow> string" where
  "str_exn (HTTPException code detail) = str_nat code @ '': '' @ detail"
| "str_exn (Exception msg) = msg"

section \<open>Retrieval and the language model (both files)\<close>

text \<open>LangChain's message classes, each with its content.\<close>

datatype lc_message = SystemMessage string | HumanMessage string | AIMessage string

text \<open>A retrieved LangChain document: its text and its metadata dictionary.\<close>

record lc_document =
  page_content :: string
  metadata :: "(string \<times> string) list"

text \<open>
  The program uses the vector store through \<open>similarity_search(query, k)\<close> alone and
  the model client through \<open>invoke(messages)\<close> alone, so each object is represented by
  that method; either call may raise. \<open>invoke\<close> returns \<open>response.content\<close>.
\<close>

type_synonym vectorstore = "string \<Rightarrow> nat \<Rightarrow> exn + lc_document list"

type_synonym llm = "lc_message list \<Rightarrow> exn + string"

record RAGSystem =
  vectorstore :: "vectorstore option"

text \<open>What a handler does to the outside, in order.\<close>

datatype event =
  Retrieved string nat
| Invoked "lc_message list"
| Printed string

fun is_call :: "event \<Rightarrow> bool" where
  "is_call (Retrieved query k) = True"
| "is_call (Invoked messages) = True"
| "is_call (Printed s) = False"

text \<open>\<open>doc.metadata.get('source', 'Unknown')\<close>.\<close>

definition source_of :: "lc_document \<Rightarrow> string" where
  "source_of doc = (case map_of (metadata doc) ''source'' of None \<Rightarrow> ''Unknown'' | Some s \<Rightarrow> s)"

text \<open>The loop over \<open>enumerate(docs, 1)\<close> that fills \<open>context_parts\<close>.\<close>

fun context_parts :: "nat \<Rightarrow> lc_document list \<Rightarrow> string list" where
  "context_parts i [] = []"
| "context_parts i (doc # docs) =
     (''[Source '' @ str_nat i @ '': '' @ source_of doc @ '']'' @ nl @ page_content doc)
       # context_parts (Suc i) docs"

text \<open>\<open>RAGSystem.retrieve_context\<close> of main.py: the context and the sources.\<close>

definition main_retrieve_context ::
    "RAGSystem \<Rightarrow> string \<Rightarrow> nat \<Rightarrow> exn + (string \<times> string list)" where
  "main_retrieve_context rag query k =
     (case vectorstore rag of
        None \<Rightarrow> Inr ('''', [])
      | Some similarity_search \<Rightarrow>
          (case similarity_search query k of
             Inl e \<Rightarrow> Inl e
           | Inr docs \<Rightarrow>
               Inr (str_join (nl @ nl) (context_parts 1 docs), map source_of docs)))"

text \<open>\<open>RAGSystem.retrieve_context\<close> of chatbot.py: the context alone.\<close>

definition chatbot_retrieve_context :: "RAGSystem \<Rightarrow> string \<Rightarrow> nat \<Rightarrow> exn + string" where
  "chatbot_retrieve_context rag query k =
     (case vectorstore rag of
        None \<Rightarrow> Inr ''''
      | Some similarity_search \<Rightarrow>
          (case similarity_search query k of
             Inl e \<Rightarrow> Inl e
           | Inr docs \<Rightarrow> Inr (str_join (nl @ nl) (context_parts 1 docs))))"

section \<open>The HTTP endpoint (main.py, get_message)\<close>

record Message =
  msg_content :: string
  msg_role :: string

record ChatRequest =
  req_content :: string
  req_role :: string
  req_conversation_history :: "Message list option"

record ChatResponse =
  resp_content :: string
  resp_role :: string
  resp_sources :: "string list option"

text \<open>The module's globals \<open>rag_system\<close> and \<open>llm\<close>, \<open>None\<close> until startup sets them.\<close>

record server =
  rag_system :: "RAGSystem option"
  llm :: "llm option"

definition main_system_prompt :: "string \<Rightarrow> string" where
  "main_system_prompt context =
     ''You are AgiAI, a helpful and friendly AI assistant for Agiteks. '' @ nl
     @ ''Use the following context from the Agiteks website to answer the user''
     @ [CHR 0x27] @ ''s question accurately.'' @ nl
     @ ''If the answer is not in the context, say so politely and provide a general helpful response.''
     @ nl @ nl
     @ ''Context from Agiteks website:'' @ nl
     @ context @ nl @ nl
     @ ''Be concise, friendly, professional, and accurate in your responses.''"

text \<open>
  The loop over \<open>recent_history\<close>: a turn whose role is neither \<open>user\<close> nor \<open>bot\<close>
  adds no message.
\<close>

fun history_messages :: "Message list \<Rightarrow> lc_message list" where
  "history_messages [] = []"
| "history_messages (msg # rest) =
     (if msg_role msg = ''user'' then HumanMessage (msg_content msg) # history_messages rest
      else if msg_role msg = ''bot'' then AIMessage (msg_content msg) # history_messages rest
      else history_messages rest)"

text \<open>The body of the \<open>try\<close> of \<open>get_message\<close>, with the exception that leaves it.\<close>

definition get_message_try ::
    "RAGSystem \<Rightarrow> llm \<Rightarrow> ChatRequest \<Rightarrow> (exn + ChatResponse) \<times> event list" where
  "get_message_try rag model request =
     (let user_message = strip (req_content request) in
      if user_message = []
      then (Inl (HTTPException 400 ''Message content cannot be empty''), [])
      else
        (case main_retrieve_context rag user_message 3 of
           Inl e \<Rightarrow> (Inl e, [Retrieved user_message 3])
         | Inr (context, sources) \<Rightarrow>
             (let messages =
                    [SystemMessage (main_system_prompt context)]
                    @ (case req_conversation_history request of
                         None \<Rightarrow> []
                       | Some history \<Rightarrow>
                           if history = [] then [] else history_messages (last_n 6 history))
                    @ [HumanMessage user_message]
              in case model messages of
                   Inl e \<Rightarrow> (Inl e, [Retrieved user_message 3, Invoked messages])
                 | Inr content \<Rightarrow>
                     (Inr \<lparr>resp_content = content, resp_role = ''bot'',
                           resp_sources = (if sources = [] then None else Some sources)\<rparr>,
                      [Retrieved user_message 3, Invoked messages]))))"

text \<open>
  \<open>get_message\<close>: the two 503 guards, then the \<open>try\<close>, whose \<open>except Exception\<close>
  prints the exception and raises a 500 in its place.
\<close>

definition get_message :: "server \<Rightarrow> ChatRequest \<Rightarrow> (exn + ChatResponse) \<times> event list" where
  "get_message srv request =
     (case rag_system srv of
        None \<Rightarrow>
          (Inl (HTTPException 503
                  ''RAG system not initialized. Please ensure FAISS index exists.''), [])
      | Some rag \<Rightarrow>
          (case vectorstore rag of
             None \<Rightarrow>
               (Inl (HTTPException 503
                       ''RAG system not initialized. Please ensure FAISS index exists.''), [])
           | Some vs \<Rightarrow>
               (case llm srv of
                  None \<Rightarrow>
                    (Inl (HTTPException 503
                            ''LLM not initialized. Please check GROQ_API_KEY.''), [])
                | Some model \<Rightarrow>
                    (case get_message_try rag model request of
                       (Inr response, events) \<Rightarrow> (Inr response, events)
                     | (Inl e, events) \<Rightarrow>
                         (Inl (HTTPException 500
                                 (''Error processing your message: '' @ str_exn e)),
                          events @ [Printed (''Error processing message: '' @ str_exn e)])))))"

section \<open>The console loop (chatbot.py, chatbot_with_rag)\<close>

definition chatbot_system_prompt :: "string \<Rightarrow> string" where
  "chatbot_system_prompt context =
     ''You are a helpful AI assistant for Agiteks. '' @ nl
     @ ''Use the following context from the Agiteks website to answer the user''
     @ [CHR 0x27] @ ''s question.'' @ nl
     @ ''If the answer is not in the context, say so and provide a general helpful response.''
     @ nl @ nl
     @ ''Context from Agiteks website:'' @ nl
     @ context @ nl @ nl
     @ ''Be concise, friendly, and accurate.''"

text \<open>
  The \<open>try\<close> of one turn with its \<open>except Exception\<close>: the new history and what the
  turn did.
\<close>

definition chat_turn ::
    "RAGSystem \<Rightarrow> llm \<Rightarrow> lc_message list \<Rightarrow> string \<Rightarrow> lc_message list \<times> event list" where
  "chat_turn rag model conversation_history user_input =
     (case chatbot_retrieve_context rag user_input 3 of
        Inl e \<Rightarrow>
          (conversation_history,
           [Retrieved user_input 3, Printed (''Error: '' @ str_exn e @ nl)])
      | Inr context \<Rightarrow>
          (let messages =
                 [SystemMessage (chatbot_system_prompt context)]
                 @ last_n 6 conversation_history
                 @ [HumanMessage user_input]
           in case model messages of
                Inl e \<Rightarrow>
                  (conversation_history,
                   [Retrieved user_input 3, Invoked messages,
                    Printed (''Error: '' @ str_exn e @ nl)])
              | Inr content \<Rightarrow>
                  (conversation_history @ [HumanMessage user_input, AIMessage content],
                   [Retrieved user_input 3, Invoked messages,
                    Printed (''Chatbot: '' @ content @ nl)])))"

text \<open>
  The \<open>while True\<close> loop over the lines the user types. \<open>input\<close> raises \<open>EOFError\<close>
  outside the \<open>try\<close> when the lines run out. The result is how the loop ended, the
  history and everything done.
\<close>

fun chat_loop ::
    "RAGSystem \<Rightarrow> llm \<Rightarrow> string list \<Rightarrow> lc_message list \<Rightarrow> event list
       \<Rightarrow> (exn + unit) \<times> lc_message list \<times> event list" where
  "chat_loop rag model [] conversation_history out =
     (Inl (Exception ''EOF when reading a line''), conversation_history, out)"
| "chat_loop rag model (line # lines) conversation_history out =
     (let user_input = strip line in
      if lower user_input \<in> set [''quit'', ''exit'', ''bye'']
      then (Inr (), conversation_history,
            out @ [Printed ''Chatbot: Goodbye! Have a great day!''])
      else if user_input = [] then chat_loop rag model lines conversation_history out
      else chat_loop rag model lines
             (fst (chat_turn rag model conversation_history user_input))
             (out @ snd (chat_turn rag model conversation_history user_input)))"

text \<open>The prompts handed to the model: the messages of each \<open>invoke\<close>, in order.\<close>

fun prompts :: "event list \<Rightarrow> lc_message list list" where
  "prompts [] = []"
| "prompts (Invoked messages # rest) = messages # prompts rest"
| "prompts (Retrieved query k # rest) = prompts rest"
| "prompts (Printed s # rest) = prompts rest"

subsection \<open>A small server and a small console session\<close>

definition demo_docs :: "lc_document list" where
  "demo_docs =
     [\<lparr>page_content = ''We offer consulting.'',
       metadata = [(''source'', ''https://example.com/services'')]\<rparr>]"

definition demo_rag :: RAGSystem where
  "demo_rag = \<lparr>vectorstore = Some (\<lambda>query k. Inr (take k demo_docs))\<rparr>"

definition demo_llm :: llm where
  "demo_llm = (\<lambda>messages. Inr ''Hello!'')"

definition failing_llm :: llm where
  "failing_llm = (\<lambda>messages. Inl (Exception ''rate limit reached''))"

definition demo_server :: server where
  "demo_server = \<lparr>rag_system = Some demo_rag, llm = Some demo_llm\<rparr>"

definition demo_context :: string where
  "demo_context = ''[Source 1: https://example.com/services]'' @ nl @ ''We offer consulting.''"

text \<open>Ten turns, five exchanges; the replies carry the role \<open>assistant\<close>.\<close>

definition assistant_history :: "Message list" where
  "assistant_history =
     [\<lparr>msg_content = ''q1'', msg_role = ''user''\<rparr>, \<lparr>msg_content = ''a1'', msg_role = ''assistant''\<rparr>,
      \<lparr>msg_content = ''q2'', msg_role = ''user''\<rparr>, \<lparr>msg_content = ''a2'', msg_role = ''assistant''\<rparr>,
      \<lparr>msg_content = ''q3'', msg_role = ''user''\<rparr>, \<lparr>msg_content = ''a3'', msg_role = ''assistant''\<rparr>,
      \<lparr>msg_content = ''q4'', msg_role = ''user''\<rparr>, \<lparr>msg_content = ''a4'', msg_role = ''assistant''\<rparr>,
      \<lparr>msg_content = ''q5'', msg_role = ''user''\<rparr>, \<lparr>msg_content = ''a5'', msg_role = ''assistant''\<rparr>]"

text \<open>The same ten turns with the replies under the role \<open>bot\<close>.\<close>

definition bot_history :: "Message list" where
  "bot_history =
     [\<lparr>msg_content = ''q1'', msg_role = ''user''\<rparr>, \<lparr>msg_content = ''a1'', msg_role = ''bot''\<rparr>,
      \<lparr>msg_content = ''q2'', msg_role = ''user''\<rparr>, \<lparr>msg_content = ''a2'', msg_role = ''bot''\<rparr>,
      \<lparr>msg_content = ''q3'', msg_role = ''user''\<rparr>, \<lparr>msg_content = ''a3'', msg_role = ''bot''\<rparr>,
      \<lparr>msg_content = ''q4'', msg_role = ''user''\<rparr>, \<lparr>msg_content = ''a4'', msg_role = ''bot''\<rparr>,
      \<lparr>msg_content = ''q5'', msg_role = ''user''\<rparr>, \<lparr>msg_content = ''a5'', msg_role = ''bot''\<rparr>]"

definition console_history :: "lc_message list" where
  "console_history =
     [HumanMessage ''q1'', AIMessage ''a1'', HumanMessage ''q2'', AIMessage ''a2'',
      HumanMessage ''q3'', AIMessage ''a3'', HumanMessage ''q4'', AIMessage ''a4'',
      HumanMessage ''q5'', AIMessage ''a5'']"

section \<open>The vector index\<close>

text \<open>
  Modelled from the spec: the vector index, which the program takes from the FAISS
  library (\<open>FAISS.from_texts\<close>, \<open>similarity_search\<close>) and whose code is not in the
  repository. Section 4.3 of the specification: \<open>build\<close> embeds every chunk's text with
  the embedding oracle; \<open>search\<close> embeds the query with the same oracle and returns the
  \<open>k\<close> nearest records by distance, each with its chunk and source.
\<close>

record chunk =
  chunk_text :: string
  chunk_source :: string

definition index_build :: "(string \<Rightarrow> 'v) \<Rightarrow> chunk list \<Rightarrow> ('v \<times> chunk) list" where
  "index_build embedding chunks = map (\<lambda>c. (embedding (chunk_text c), c)) chunks"

definition index_search ::
    "(string \<Rightarrow> 'v) \<Rightarrow> ('v \<Rightarrow> 'v \<Rightarrow> 'd::linorder) \<Rightarrow> ('v \<times> chunk) list \<Rightarrow> vectorstore" where
  "index_search embedding dist index query k =
     Inr (map (\<lambda>(v, c). \<lparr>page_content = chunk_text c,
                           metadata = [(''source'', chunk_source c)]\<rparr>)
            (take k (sort_key (\<lambda>(v, c). dist (embedding query) v) index)))"

definition bot_request :: ChatRequest where
  "bot_request =
     \<lparr>req_content = '' hello '', req_role = ''user'',
      req_conversation_history = Some bot_history\<rparr>"

definition assistant_request :: ChatRequest where
  "assistant_request =
     \<lparr>req_content = '' hello '', req_role = ''user'',
      req_conversation_history = Some assistant_history\<rparr>"

definition blank_request :: ChatRequest where
  "blank_request =
     \<lparr>req_content = ''   '', req_role = ''user'', req_conversation_history = None\<rparr>"

subsection \<open>A page with a malformed link\<close>

text \<open>
  A page with 120 characters of text whose only link is an href that \<open>urljoin\<close>
  refuses (an unclosed IPv6 bracket raises \<open>ValueError\<close>).
\<close>

definition bad_page :: soup where
  "bad_page = \<lparr>strings = [replicate 120 CHR ''a''], hrefs = [''http://['']\<rparr>"

definition bad_web :: web where
  "bad_web =
     \<lparr>netloc = (\<lambda>u. Inr ''example.com''),
      urljoin = (\<lambda>b h. if h = ''http://['' then Inl (Exception ''Invalid IPv6 URL'') else Inr h),
      fetch = (\<lambda>u. if u = ''https://example.com'' then Inr bad_page
                    else Inl (Exception ''404''))\<rparr>"

section \<open>Building, saving and loading the index (both files)\<close>

definition FAISS_INDEX_PATH :: string where
  "FAISS_INDEX_PATH = ''faiss_index''"

text \<open>
  Modelled from the spec: stable storage, which the program reaches through
  \<open>FAISS.save_local\<close> and \<open>FAISS.load_local\<close>, library code that is not in the
  repository. Section 4.3 of the specification: \<open>build\<close> persists the index to stable
  storage, a full overwrite of any prior index at that location; the persisted format
  round-trips. Storage holds, per location, the index persisted there.
\<close>

type_synonym 'v storage = "string \<Rightarrow> ('v \<times> chunk) list option"

text \<open>
  Modelled from the spec: persisting an index at a location overwrites what the
  location held.
\<close>

definition index_persist :: "'v storage \<Rightarrow> string \<Rightarrow> ('v \<times> chunk) list \<Rightarrow> 'v storage" where
  "index_persist disk path index = disk(path \<mapsto> index)"

text \<open>
  Modelled from the spec: \<open>load(path)\<close> deserializes a previously persisted index and
  fails with \<open>IndexNotFoundError\<close> if absent.
\<close>

definition index_load :: "'v storage \<Rightarrow> string \<Rightarrow> exn + ('v \<times> chunk) list" where
  "index_load disk path =
     (case disk path of
        None \<Rightarrow> Inl (Exception ''IndexNotFoundError'')
      | Some index \<Rightarrow> Inr index)"

text \<open>
  \<open>RAGSystem.process_and_store_documents\<close> (chatbot.py): every document is split, each
  chunk keeps its document's source, the index is built from the chunks
  (\<open>FAISS.from_texts\<close>) and saved at \<open>FAISS_INDEX_PATH\<close>. The text splitter
  (LangChain's, created with chunk size 1000 and overlap 200) and the embedding model
  are parameters. The result is the system with its vector store set, and the storage.
\<close>

definition process_and_store_documents ::
    "(string \<Rightarrow> string list) \<Rightarrow> (string \<Rightarrow> 'v) \<Rightarrow> ('v \<Rightarrow> 'v \<Rightarrow> 'd::linorder) \<Rightarrow> 'v storage
       \<Rightarrow> document list \<Rightarrow> RAGSystem \<times> 'v storage" where
  "process_and_store_documents split_text embedding dist disk docs =
     (let chunks =
            concat (map (\<lambda>doc. map (\<lambda>c. \<lparr>chunk_text = c, chunk_source = doc_source doc\<rparr>)
                                (split_text (doc_content doc))) docs);
          index = index_build embedding chunks
      in (\<lparr>vectorstore = Some (index_search embedding dist index)\<rparr>,
          index_persist disk FAISS_INDEX_PATH index))"

text \<open>
  \<open>RAGSystem.load_existing_vectorstore\<close> (both files): \<open>FileNotFoundError\<close> when nothing
  is stored at \<open>FAISS_INDEX_PATH\<close>, else the system with the loaded index as its vector
  store, searched with the system's own embedding model.
\<close>

definition load_existing_vectorstore ::
    "(string \<Rightarrow> 'v) \<Rightarrow> ('v \<Rightarrow> 'v \<Rightarrow> 'd::linorder) \<Rightarrow> 'v storage \<Rightarrow> exn + RAGSystem" where
  "load_existing_vectorstore embedding dist disk =
     (if disk FAISS_INDEX_PATH = None
      then Inl (Exception (''FAISS index not found at '' @ FAISS_INDEX_PATH))
      else
        (case index_load disk FAISS_INDEX_PATH of
           Inl e \<Rightarrow> Inl e
         | Inr index \<Rightarrow> Inr \<lparr>vectorstore = Some (index_search embedding dist index)\<rparr>))"

subsection \<open>Two scraped pages, indexed\<close>

definition demo_pages :: "document list" where
  "demo_pages =
     [\<lparr>doc_content = ''We offer consulting.'', doc_source = ''https://example.com/services''\<rparr>,
      \<lparr>doc_content = ''Founded in 2020 by two engineers.'',
       doc_source = ''https://example.com/about''\<rparr>]"

text \<open>A stand-in embedding, the length of the text, with the distance between lengths.\<close>

definition demo_embedding :: "string \<Rightarrow> nat" where
  "demo_embedding s = length s"

definition demo_dist :: "nat \<Rightarrow> nat \<Rightarrow> nat" where
  "demo_dist a b = (if a \<le> b then b - a else a - b)"

definition demo_split :: "string \<Rightarrow> string list" where
  "demo_split s = [s]"

section \<open>Properties of the crawl\<close>

lemma scrape_loop_last: "scrape_loop env st = last (scrape_states env st)"
proof (induction env st rule: scrape_states.induct)
  case (1 env st)
  show ?case
  proof (cases "scrape_step env st")
    case None
    then show ?thesis
      by (subst scrape_loop.simps, subst scrape_states.simps) simp
  next
    case (Some st')
    have ne: "scrape_states env st' \<noteq> []"
      by (subst scrape_states.simps) simp
    have "scrape_loop env st = scrape_loop env st'"
      using Some by (subst scrape_loop.simps) simp
    moreover have "scrape_states env st = st # scrape_states env st'"
      using Some by (subst scrape_states.simps) simp
    ultimately show ?thesis
      using 1 [OF Some] ne by simp
  qed
qed

lemma scrape_states_nonempty: "scrape_states env st \<noteq> []"
  by (subst scrape_states.simps) simp

lemma scrape_loop_in_states: "scrape_loop env st \<in> set (scrape_states env st)"
  by (simp add: scrape_loop_last scrape_states_nonempty)

lemma scrape_states_invariant:
  assumes "\<And>s s'. P s \<Longrightarrow> scrape_step env s = Some s' \<Longrightarrow> P s'"
    and "P st" and "s \<in> set (scrape_states env st)"
  shows "P s"
  using assms
proof (induction env st rule: scrape_states.induct)
  case (1 env st)
  show ?case
  proof (cases "scrape_step env st")
    case None
    have "scrape_states env st = [st]"
      using None by (subst scrape_states.simps) simp
    with "1.prems" show ?thesis by simp
  next
    case (Some st')
    have "scrape_states env st = st # scrape_states env st'"
      using Some by (subst scrape_states.simps) simp
    with "1.prems" have "s = st \<or> s \<in> set (scrape_states env st')"
      by simp
    then show ?thesis
    proof
      assume "s = st" with "1.prems" show ?thesis by simp
    next
      assume in_rest: "s \<in> set (scrape_states env st')"
      have "P st'" using "1.prems"(1) [OF "1.prems"(2) Some] .
      from "1.IH" [OF Some "1.prems"(1) this in_rest] show ?thesis .
    qed
  qed
qed

lemma collect_links_valid:
  "collect_links env scr url hs = Inr links \<Longrightarrow> l \<in> set links \<Longrightarrow> netloc env l = Inr (domain scr)"
  by (induction hs arbitrary: links)
     (auto simp: is_valid_url_def split: sum.splits if_splits)

lemma scrape_page_valid:
  "scrape_page env scr url = (text, links) \<Longrightarrow> l \<in> set links \<Longrightarrow> netloc env l = Inr (domain scr)"
  by (auto simp: scrape_page_def Let_def split: sum.splits dest: collect_links_valid)

lemma collect_links_isl:
  "isl (collect_links env scr url hs) = isl (collect_links env scr' url hs)"
  by (induction hs) (auto simp: is_valid_url_def split: sum.splits)

lemma scrape_page_text:
  "fst (scrape_page env scr url) = fst (scrape_page env scr' url)"
proof (cases "fetch env url")
  case (Inl e)
  then show ?thesis by (simp add: scrape_page_def)
next
  case (Inr page)
  from collect_links_isl [of env scr url "hrefs page" scr']
  show ?thesis
    using Inr
    by (cases "collect_links env scr url (hrefs page)"; cases "collect_links env scr' url (hrefs page)")
       (simp_all add: scrape_page_def)
qed

lemma strip_fixed:
  assumes "s = [] \<or> (\<not> isspace (hd s) \<and> \<not> isspace (last s))"
  shows "strip s = s"
proof (cases s)
  case Nil
  then show ?thesis by (simp add: strip_def lstrip_def rstrip_def)
next
  case (Cons c cs)
  with assms have h: "\<not> isspace (hd s)" and l: "\<not> isspace (last s)" by auto
  from h have "dropWhile isspace s = s" by (simp add: dropWhile_eq_self_iff)
  moreover from l have "dropWhile isspace (rev s) = rev s"
    by (simp add: dropWhile_eq_self_iff hd_rev)
  ultimately show ?thesis by (simp add: strip_def lstrip_def rstrip_def)
qed

lemma strip_edges:
  assumes "strip x \<noteq> []"
  shows "\<not> isspace (hd (strip x))" and "\<not> isspace (last (strip x))"
proof -
  define y where "y = dropWhile isspace x"
  define z where "z = dropWhile isspace (rev y)"
  have sx: "strip x = rev z" by (simp add: strip_def lstrip_def rstrip_def y_def z_def)
  with assms have zne: "z \<noteq> []" by simp
  then have "\<not> isspace (hd z)" unfolding z_def by (rule hd_dropWhile)
  then show "\<not> isspace (last (strip x))" using zne by (simp add: sx last_rev)
  have "rev y = takeWhile isspace (rev y) @ z" by (simp add: z_def)
  then have "last (rev y) = last z" using zne by (metis last_appendR)
  moreover have yne: "y \<noteq> []" using zne z_def by auto
  ultimately have "last z = hd y" by (simp add: last_rev)
  moreover have "\<not> isspace (hd y)" using yne unfolding y_def by (rule hd_dropWhile)
  ultimately show "\<not> isspace (hd (strip x))" using zne by (simp add: sx hd_rev)
qed

lemma str_join_Nil_iff: "\<forall>x \<in> set xs. x \<noteq> [] \<Longrightarrow> str_join sep xs = [] \<longleftrightarrow> xs = []"
  by (induction sep xs rule: str_join.induct) auto

lemma hd_str_join: "xs \<noteq> [] \<Longrightarrow> hd xs \<noteq> [] \<Longrightarrow> hd (str_join sep xs) = hd (hd xs)"
  by (induction sep xs rule: str_join.induct) auto

lemma last_str_join:
  "xs \<noteq> [] \<Longrightarrow> \<forall>x \<in> set xs. x \<noteq> [] \<Longrightarrow> last (str_join sep xs) = last (last xs)"
  by (induction sep xs rule: str_join.induct) (auto simp: str_join_Nil_iff)

lemma strip_get_text: "strip (get_text nodes) = get_text nodes"
proof -
  define xs where "xs = filter (\<lambda>s. s \<noteq> []) (map strip nodes)"
  have ne: "\<forall>x \<in> set xs. x \<noteq> []" by (auto simp: xs_def)
  have edges: "\<forall>x \<in> set xs. \<not> isspace (hd x) \<and> \<not> isspace (last x)"
    using strip_edges by (auto simp: xs_def)
  show ?thesis
  proof (cases "xs = []")
    case True
    then show ?thesis
      by (simp add: get_text_def xs_def [symmetric] strip_fixed)
  next
    case False
    then have "hd xs \<in> set xs" "last xs \<in> set xs" by simp_all
    with ne edges False have "\<not> isspace (hd (str_join '' '' xs))" "\<not> isspace (last (str_join '' '' xs))"
      by (simp_all add: hd_str_join last_str_join)
    then show ?thesis
      by (simp add: get_text_def xs_def [symmetric] strip_fixed)
  qed
qed

lemma scrape_page_text_stripped:
  "scrape_page env scr url = (Some t, links) \<Longrightarrow> strip t = t"
  by (auto simp: scrape_page_def Let_def strip_get_text split: sum.splits)

lemma step_domain_inv:
  assumes "scrape_step env s = Some s'"
    and "domain (self s) = d \<and> max_pages (self s) = cap
         \<and> fcard (visited_urls (self s)) \<le> cap
         \<and> (\<forall>u. u |\<in>| visited_urls (self s) \<longrightarrow> netloc env u = Inr d)
         \<and> (\<forall>u \<in> set (to_visit s). netloc env u = Inr d)"
  shows "domain (self s') = d \<and> max_pages (self s') = cap
         \<and> fcard (visited_urls (self s')) \<le> cap
         \<and> (\<forall>u. u |\<in>| visited_urls (self s') \<longrightarrow> netloc env u = Inr d)
         \<and> (\<forall>u \<in> set (to_visit s'). netloc env u = Inr d)"
proof (cases "to_visit s")
  case Nil
  with assms(1) show ?thesis by (simp add: scrape_step_def)
next
  case (Cons url rest)
  show ?thesis
  proof (cases "url |\<in>| visited_urls (self s)")
    case True
    with assms Cons show ?thesis
      by (auto simp: scrape_step_def split: if_splits)
  next
    case False
    define scr' where "scr' = (self s)\<lparr>visited_urls := finsert url (visited_urls (self s))\<rparr>"
    obtain body links where sp: "scrape_page env scr' url = (body, links)"
      by (cases "scrape_page env scr' url")
    from assms(1) Cons False have lt: "fcard (visited_urls (self s)) < max_pages (self s)"
      by (auto simp: scrape_step_def split: if_splits)
    from assms(1) Cons False lt sp
    have s': "self s' = scr'"
      "to_visit s' = rest @ filter (\<lambda>link. link |\<notin>| visited_urls scr') links"
      by (auto simp: scrape_step_def Let_def scr'_def)
    have dom: "domain scr' = d" using assms(2) by (simp add: scr'_def)
    have links: "\<forall>l \<in> set links. netloc env l = Inr d"
      using scrape_page_valid [OF sp] dom by simp
    have "fcard (visited_urls scr') \<le> cap"
      using lt assms(2) False by (simp add: scr'_def fcard_finsert_disjoint)
    moreover have "\<forall>u. u |\<in>| visited_urls scr' \<longrightarrow> netloc env u = Inr d"
      using assms(2) Cons by (auto simp: scr'_def)
    moreover have "\<forall>u \<in> set (to_visit s'). netloc env u = Inr d"
      using assms(2) Cons links by (auto simp: s')
    moreover have "max_pages scr' = cap" using assms(2) by (simp add: scr'_def)
    ultimately show ?thesis using dom s' by simp
  qed
qed

lemma step_requested_inv:
  assumes "scrape_step env s = Some s'"
    and "distinct (requested s) \<and> set (requested s) \<subseteq> fset (visited_urls (self s))"
  shows "distinct (requested s') \<and> set (requested s') \<subseteq> fset (visited_urls (self s'))"
  using assms
  by (auto simp: scrape_step_def Let_def split: list.splits if_splits prod.splits)

lemma step_documents_inv:
  assumes "scrape_step env s = Some s'"
    and "documents s =
           map (\<lambda>u. \<lparr>doc_content = the (fst (scrape_page env scr u)), doc_source = u\<rparr>)
             (filter (\<lambda>u. case fst (scrape_page env scr u) of None \<Rightarrow> False | Some t \<Rightarrow> 100 < length t)
                (requested s))"
  shows "documents s' =
           map (\<lambda>u. \<lparr>doc_content = the (fst (scrape_page env scr u)), doc_source = u\<rparr>)
             (filter (\<lambda>u. case fst (scrape_page env scr u) of None \<Rightarrow> False | Some t \<Rightarrow> 100 < length t)
                (requested s'))"
proof (cases "to_visit s")
  case Nil
  with assms(1) show ?thesis by (simp add: scrape_step_def)
next
  case (Cons url rest)
  show ?thesis
  proof (cases "url |\<in>| visited_urls (self s)")
    case True
    with assms Cons show ?thesis
      by (auto simp: scrape_step_def split: if_splits)
  next
    case False
    define scr' where "scr' = (self s)\<lparr>visited_urls := finsert url (visited_urls (self s))\<rparr>"
    obtain body links where sp: "scrape_page env scr' url = (body, links)"
      by (cases "scrape_page env scr' url")
    have tx: "fst (scrape_page env scr url) = body"
      using scrape_page_text [of env scr url scr'] sp by simp
    from assms(1) Cons False have lt: "fcard (visited_urls (self s)) < max_pages (self s)"
      by (auto simp: scrape_step_def split: if_splits)
    from assms(1) Cons False lt sp
    have s': "requested s' = requested s @ [url]"
      "documents s' = (case body of None \<Rightarrow> documents s
         | Some t \<Rightarrow> if t \<noteq> [] \<and> 100 < length (strip t)
             then documents s @ [\<lparr>doc_content = t, doc_source = url\<rparr>] else documents s)"
      by (auto simp: scrape_step_def Let_def scr'_def)
    show ?thesis
    proof (cases body)
      case None
      with s' tx assms(2) show ?thesis by simp
    next
      case (Some t)
      with sp have "strip t = t" by (simp add: scrape_page_text_stripped)
      with s' tx assms(2) Some show ?thesis by auto
    qed
  qed
qed

subsection \<open>The crawl of the small site\<close>

lemma demo_scraper_built:
  "WebsiteScraper demo_web ''https://example.com'' 5 = Inr demo_scraper"
  by (simp add: WebsiteScraper_def demo_web_def demo_scraper_def)

lemma demo_requested:
  "requested (scrape_website demo_web demo_scraper)
     = [''https://example.com'', ''https://example.com/about'']"
  by code_simp

lemma demo_visited:
  "''https://example.com/about'' |\<in>| visited_urls (self (scrape_website demo_web demo_scraper))"
  by code_simp

lemma demo_documents:
  "map doc_source (documents (scrape_website demo_web demo_scraper)) = [''https://example.com'']"
  by code_simp

subsection \<open>The claims about the crawl\<close>

text \<open>
  C5: in every state of a crawl begun by a fresh scraper with page cap \<open>cap\<close>, at each
  head of the loop and on return, the visited set holds at most \<open>cap\<close> URLs and every
  URL in it has the netloc of the seed URL.
\<close>

theorem visited_bounded_same_domain:
  assumes "WebsiteScraper env seed cap = Inr scr"
    and "st \<in> set (scrape_states env (crawl_start scr)) \<or> st = scrape_website env scr"
  shows "fcard (visited_urls (self st)) \<le> cap
         \<and> (\<forall>u. u |\<in>| visited_urls (self st) \<longrightarrow> netloc env u = netloc env seed)"
proof -
  from assms(1) obtain d where d: "netloc env seed = Inr d"
    and scr: "scr = \<lparr>base_url = seed, max_pages = cap, visited_urls = {||}, domain = d\<rparr>"
    by (auto simp: WebsiteScraper_def split: sum.splits)
  let ?P = "\<lambda>s. domain (self s) = d \<and> max_pages (self s) = cap
         \<and> fcard (visited_urls (self s)) \<le> cap
         \<and> (\<forall>u. u |\<in>| visited_urls (self s) \<longrightarrow> netloc env u = Inr d)
         \<and> (\<forall>u \<in> set (to_visit s). netloc env u = Inr d)"
  from assms(2) have mem: "st \<in> set (scrape_states env (crawl_start scr))"
    by (auto simp: scrape_website_def scrape_loop_in_states)
  have init: "?P (crawl_start scr)" by (simp add: crawl_start_def scr d fcard_fempty)
  have "?P st"
  proof (rule scrape_states_invariant [where P = ?P, OF _ init mem])
    fix s s'
    assume inv: "?P s" and step: "scrape_step env s = Some s'"
    show "?P s'" by (rule step_domain_inv [OF step inv])
  qed
  then show ?thesis by (simp add: d)
qed

theorem visited_bounded_same_domain_witness:
  "fcard (visited_urls (self (scrape_website demo_web demo_scraper))) \<le> 5
   \<and> ''https://example.com/about'' |\<in>| visited_urls (self (scrape_website demo_web demo_scraper))
   \<and> netloc demo_web ''https://example.com/about'' = netloc demo_web ''https://example.com''"
  using visited_bounded_same_domain
          [OF demo_scraper_built, of "scrape_website demo_web demo_scraper"]
        demo_visited
  by blast

text \<open>
  C6: the URLs handed to \<open>scrape_page\<close>, and so to \<open>requests.get\<close>, during one crawl
  are pairwise distinct: no URL is fetched twice, however often the queue holds it.
\<close>

theorem no_url_fetched_twice:
  assumes "WebsiteScraper env seed cap = Inr scr"
    and "st \<in> set (scrape_states env (crawl_start scr)) \<or> st = scrape_website env scr"
  shows "distinct (requested st)"
proof -
  let ?P = "\<lambda>s. distinct (requested s) \<and> set (requested s) \<subseteq> fset (visited_urls (self s))"
  from assms(2) have mem: "st \<in> set (scrape_states env (crawl_start scr))"
    by (auto simp: scrape_website_def scrape_loop_in_states)
  have init: "?P (crawl_start scr)" by (simp add: crawl_start_def)
  have "?P st"
  proof (rule scrape_states_invariant [where P = ?P, OF _ init mem])
    fix s s'
    assume inv: "?P s" and step: "scrape_step env s = Some s'"
    show "?P s'" by (rule step_requested_inv [OF step inv])
  qed
  then show ?thesis by simp
qed

theorem no_url_fetched_twice_witness:
  "distinct (requested (scrape_website demo_web demo_scraper))
   \<and> requested (scrape_website demo_web demo_scraper)
       = [''https://example.com'', ''https://example.com/about'']"
  using no_url_fetched_twice
          [OF demo_scraper_built, of "scrape_website demo_web demo_scraper"]
        demo_requested
  by blast

lemma scrape_page_text_Some_iff:
  "fst (scrape_page env scr url) = Some t \<longleftrightarrow>
     (\<exists>page links. fetch env url = Inr page
        \<and> collect_links env scr url (hrefs page) = Inr links
        \<and> t = get_text (strings page))"
  by (auto simp: scrape_page_def Let_def split: sum.splits)

lemma bad_scraper_built:
  "WebsiteScraper bad_web ''https://example.com'' 5 = Inr demo_scraper"
  by (simp add: WebsiteScraper_def bad_web_def demo_scraper_def)

text \<open>
  C3, as stated, fails: a processed page whose extracted text has 120 characters emits
  no document when one of its links is malformed, because the exception \<open>urljoin\<close>
  raises in the link loop makes \<open>scrape_page\<close> return \<open>(None, [])\<close>.
\<close>

theorem long_text_lost_to_malformed_link:
  "fetch bad_web ''https://example.com'' = Inr bad_page
   \<and> length (get_text (strings bad_page)) = 120
   \<and> requested (scrape_website bad_web demo_scraper) = [''https://example.com'']
   \<and> documents (scrape_website bad_web demo_scraper) = []"
proof -
  have "fetch bad_web ''https://example.com'' = Inr bad_page"
    by (simp add: bad_web_def)
  moreover have "length (get_text (strings bad_page)) = 120"
    by code_simp
  moreover have "requested (scrape_website bad_web demo_scraper) = [''https://example.com'']"
    by code_simp
  moreover have "documents (scrape_website bad_web demo_scraper) = []"
    by code_simp
  ultimately show ?thesis by simp
qed

text \<open>
  C3, amended: the documents of a crawl are, in order, those of the processed pages
  that \<open>scrape_page\<close> scraped without an exception (fetch, parse and every link
  resolved; see \<open>scrape_page_text_Some_iff\<close>) and whose extracted text is longer than
  100 characters, and no others. The text \<open>scrape_page\<close> returns does not depend on
  the visited set.
\<close>

theorem document_iff_long_text:
  assumes "WebsiteScraper env seed cap = Inr scr"
    and "st \<in> set (scrape_states env (crawl_start scr)) \<or> st = scrape_website env scr"
  shows "documents st =
           map (\<lambda>u. \<lparr>doc_content = the (fst (scrape_page env scr u)), doc_source = u\<rparr>)
             (filter (\<lambda>u. case fst (scrape_page env scr u) of None \<Rightarrow> False | Some t \<Rightarrow> 100 < length t)
                (requested st))"
proof -
  let ?P = "\<lambda>s. documents s =
           map (\<lambda>u. \<lparr>doc_content = the (fst (scrape_page env scr u)), doc_source = u\<rparr>)
             (filter (\<lambda>u. case fst (scrape_page env scr u) of None \<Rightarrow> False | Some t \<Rightarrow> 100 < length t)
                (requested s))"
  from assms(2) have mem: "st \<in> set (scrape_states env (crawl_start scr))"
    by (auto simp: scrape_website_def scrape_loop_in_states)
  have init: "?P (crawl_start scr)" by (simp add: crawl_start_def)
  show "?P st"
  proof (rule scrape_states_invariant [where P = ?P, OF _ init mem])
    fix s s'
    assume inv: "?P s" and step: "scrape_step env s = Some s'"
    show "?P s'" by (rule step_documents_inv [OF step inv])
  qed
qed

theorem document_iff_long_text_witness:
  "documents (scrape_website demo_web demo_scraper) =
     map (\<lambda>u. \<lparr>doc_content = the (fst (scrape_page demo_web demo_scraper u)), doc_source = u\<rparr>)
       (filter (\<lambda>u. case fst (scrape_page demo_web demo_scraper u) of
                       None \<Rightarrow> False | Some t \<Rightarrow> 100 < length t)
          (requested (scrape_website demo_web demo_scraper)))
   \<and> map doc_source (documents (scrape_website demo_web demo_scraper)) = [''https://example.com'']
   \<and> requested (scrape_website demo_web demo_scraper)
       = [''https://example.com'', ''https://example.com/about'']"
  using document_iff_long_text
          [OF demo_scraper_built, of "scrape_website demo_web demo_scraper"]
        demo_documents demo_requested
  by blast

section \<open>Properties of the endpoint and of the console loop\<close>

lemma strip_blank:
  assumes "\<forall>c \<in> set s. isspace c"
  shows "strip s = []"
proof -
  from assms have d: "dropWhile isspace s = []" by (induction s) simp_all
  show ?thesis unfolding strip_def lstrip_def rstrip_def d by simp
qed

lemma get_message_try_blank:
  "strip (req_content request) = [] \<Longrightarrow>
   get_message_try rag model request
     = (Inl (HTTPException 400 ''Message content cannot be empty''), [])"
  by (simp add: get_message_try_def)

lemma get_message_blank:
  assumes "strip (req_content request) = []"
  shows "isl (fst (get_message srv request))"
    and "filter is_call (snd (get_message srv request)) = []"
  using assms
  by (auto simp: get_message_def get_message_try_blank split: option.splits)

lemma chat_loop_blank:
  assumes "strip line = []"
  shows "chat_loop rag model (line # lines) history out = chat_loop rag model lines history out"
  using assms by (simp add: lower_def)

lemma history_messages_filter:
  "history_messages turns =
     map (\<lambda>m. if msg_role m = ''user'' then HumanMessage (msg_content m)
               else AIMessage (msg_content m))
       (filter (\<lambda>m. msg_role m = ''user'' \<or> msg_role m = ''bot'') turns)"
  by (induction turns) simp_all

lemma prompts_append: "prompts (xs @ ys) = prompts xs @ prompts ys"
  by (induction xs rule: prompts.induct) simp_all

lemma chat_turn_prompt:
  assumes "chatbot_retrieve_context rag user_input 3 = Inr context"
  shows "prompts (snd (chat_turn rag model history user_input))
           = [[SystemMessage (chatbot_system_prompt context)] @ last_n 6 history
              @ [HumanMessage user_input]]"
  using assms by (simp add: chat_turn_def Let_def split: sum.splits)

lemma get_message_prompt:
  assumes "rag_system srv = Some rag" and "vectorstore rag = Some vs" and "llm srv = Some model"
    and "strip (req_content request) \<noteq> []"
    and "main_retrieve_context rag (strip (req_content request)) 3 = Inr (context, sources)"
    and "req_conversation_history request = Some turns"
  shows "prompts (snd (get_message srv request))
           = [[SystemMessage (main_system_prompt context)] @ history_messages (last_n 6 turns)
              @ [HumanMessage (strip (req_content request))]]"
proof -
  have "prompts (snd (get_message_try rag model request))
           = [[SystemMessage (main_system_prompt context)] @ history_messages (last_n 6 turns)
              @ [HumanMessage (strip (req_content request))]]"
    using assms(4-6) by (auto simp: get_message_try_def Let_def last_n_def split: sum.splits)
  then show ?thesis
    using assms(1-3)
    by (cases "get_message_try rag model request"; cases "fst (get_message_try rag model request)")
       (simp_all add: get_message_def prompts_append)
qed

lemma chat_turn_failed:
  assumes "chatbot_retrieve_context rag user_input 3 = Inl e
           \<or> (\<exists>context. chatbot_retrieve_context rag user_input 3 = Inr context
                \<and> model ([SystemMessage (chatbot_system_prompt context)] @ last_n 6 history
                          @ [HumanMessage user_input]) = Inl e)"
  shows "fst (chat_turn rag model history user_input) = history"
    and "last (snd (chat_turn rag model history user_input)) = Printed (''Error: '' @ str_exn e @ nl)"
  using assms by (auto simp: chat_turn_def Let_def)

lemma chat_loop_turn:
  assumes "strip line \<noteq> []" and "lower (strip line) \<notin> set [''quit'', ''exit'', ''bye'']"
  shows "chat_loop rag model (line # lines) history out
           = chat_loop rag model lines (fst (chat_turn rag model history (strip line)))
               (out @ snd (chat_turn rag model history (strip line)))"
  using assms by (simp add: Let_def)

subsection \<open>The small server and session, evaluated\<close>

lemma demo_server_fields:
  "rag_system demo_server = Some demo_rag"
  "vectorstore demo_rag = Some (\<lambda>query k. Inr (take k demo_docs))"
  "llm demo_server = Some demo_llm"
  by (simp_all add: demo_server_def demo_rag_def)

lemma demo_history_lengths:
  "length console_history = 10" "length bot_history = 10" "length assistant_history = 10"
  by (simp_all add: console_history_def bot_history_def assistant_history_def)

lemma demo_strip_hello: "strip '' hello '' = ''hello''"
  by code_simp

lemma demo_chatbot_context: "chatbot_retrieve_context demo_rag ''hello'' 3 = Inr demo_context"
  by code_simp

lemma demo_main_context:
  "main_retrieve_context demo_rag ''hello'' 3
     = Inr (demo_context, [''https://example.com/services''])"
  by code_simp

lemma demo_blank: "\<forall>c \<in> set ''   ''. isspace c"
  by (simp add: isspace_def)

lemma demo_question:
  "strip ''What do you offer?'' \<noteq> []"
  "lower (strip ''What do you offer?'') \<notin> set [''quit'', ''exit'', ''bye'']"
  by code_simp+

lemma demo_failure:
  "\<exists>context. chatbot_retrieve_context demo_rag (strip ''What do you offer?'') 3 = Inr context
     \<and> failing_llm ([SystemMessage (chatbot_system_prompt context)] @ last_n 6 console_history
                     @ [HumanMessage (strip ''What do you offer?'')])
         = Inl (Exception ''rate limit reached'')"
  by (simp add: chatbot_retrieve_context_def demo_rag_def failing_llm_def)

subsection \<open>What the endpoint answers\<close>

lemma get_message_uninitialised:
  assumes "rag_system srv = None
           \<or> (\<exists>rag. rag_system srv = Some rag \<and> vectorstore rag = None)
           \<or> llm srv = None"
  shows "\<exists>detail. get_message srv request = (Inl (HTTPException 503 detail), [])"
  using assms by (auto simp: get_message_def split: option.splits)

lemma get_message_blank_500:
  assumes "rag_system srv = Some rag" and "vectorstore rag = Some vs" and "llm srv = Some model"
    and "strip (req_content request) = []"
  shows "fst (get_message srv request)
           = Inl (HTTPException 500
                    (''Error processing your message: ''
                     @ str_exn (HTTPException 400 ''Message content cannot be empty'')))"
  using assms by (simp add: get_message_def get_message_try_blank)

text \<open>
  C1: with the index and the model client both initialised, a request whose content is
  three spaces is answered with status 500: the 400 raised inside the \<open>try\<close> is caught
  by its \<open>except Exception\<close> and replaced.
\<close>

theorem blank_content_answered_500:
  "fst (get_message demo_server blank_request)
     = Inl (HTTPException 500
              ''Error processing your message: 400: Message content cannot be empty'')"
  by code_simp

text \<open>
  C4: \<open>retrieve_context\<close> on a system whose vector store is unset returns the empty
  context (with the empty source list in main.py) without raising, and so does it on
  an index built from zero chunks.
\<close>

theorem retrieve_unset_or_empty:
  "main_retrieve_context \<lparr>vectorstore = None\<rparr> query k = Inr ('''', [])
   \<and> chatbot_retrieve_context \<lparr>vectorstore = None\<rparr> query k = Inr ''''
   \<and> main_retrieve_context
         \<lparr>vectorstore = Some (index_search embedding dist (index_build embedding []))\<rparr> query k
       = Inr ('''', [])
   \<and> chatbot_retrieve_context
         \<lparr>vectorstore = Some (index_search embedding dist (index_build embedding []))\<rparr> query k
       = Inr ''''"
  by (simp add: main_retrieve_context_def chatbot_retrieve_context_def
        index_search_def index_build_def)

text \<open>
  C7, as stated, fails on the endpoint: ten prior turns whose replies carry the role
  \<open>assistant\<close> leave a prompt of five messages, the system instruction, the three user
  turns among the last six, and the new message.
\<close>

theorem assistant_turns_left_out:
  "length assistant_history = 10
   \<and> prompts (snd (get_message demo_server assistant_request))
       = [[SystemMessage (main_system_prompt demo_context),
           HumanMessage ''q3'', HumanMessage ''q4'', HumanMessage ''q5'',
           HumanMessage ''hello'']]"
  by code_simp

text \<open>
  C7, amended: with ten prior turns, the console's prompt is the system instruction,
  the last six turns in order, and the new user message; the endpoint's prompt is the
  system instruction, those of the last six turns whose role is \<open>user\<close> or \<open>bot\<close> in
  order (as human and AI messages), and the new user message, stripped.
\<close>

theorem prompt_window:
  assumes "length history = 10"
    and "chatbot_retrieve_context rag user_input 3 = Inr context"
    and "length turns = 10"
    and "rag_system srv = Some rag'" and "vectorstore rag' = Some vs" and "llm srv = Some model'"
    and "strip (req_content request) \<noteq> []"
    and "main_retrieve_context rag' (strip (req_content request)) 3 = Inr (context', sources)"
    and "req_conversation_history request = Some turns"
  shows "prompts (snd (chat_turn rag model history user_input))
           = [[SystemMessage (chatbot_system_prompt context)] @ drop 4 history
              @ [HumanMessage user_input]]
         \<and> prompts (snd (get_message srv request))
           = [[SystemMessage (main_system_prompt context')]
              @ map (\<lambda>m. if msg_role m = ''user'' then HumanMessage (msg_content m)
                          else AIMessage (msg_content m))
                  (filter (\<lambda>m. msg_role m = ''user'' \<or> msg_role m = ''bot'') (drop 4 turns))
              @ [HumanMessage (strip (req_content request))]]"
proof -
  from assms(1) have "last_n 6 history = drop 4 history" by (simp add: last_n_def)
  with chat_turn_prompt [OF assms(2), of model history]
  have console: "prompts (snd (chat_turn rag model history user_input))
           = [[SystemMessage (chatbot_system_prompt context)] @ drop 4 history
              @ [HumanMessage user_input]]"
    by simp
  from assms(3) have "last_n 6 turns = drop 4 turns" by (simp add: last_n_def)
  with get_message_prompt [OF assms(4-9)] history_messages_filter [of "drop 4 turns"]
  have "prompts (snd (get_message srv request))
           = [[SystemMessage (main_system_prompt context')]
              @ map (\<lambda>m. if msg_role m = ''user'' then HumanMessage (msg_content m)
                          else AIMessage (msg_content m))
                  (filter (\<lambda>m. msg_role m = ''user'' \<or> msg_role m = ''bot'') (drop 4 turns))
              @ [HumanMessage (strip (req_content request))]]"
    by simp
  with console show ?thesis by simp
qed

theorem prompt_window_witness:
  "prompts (snd (chat_turn demo_rag demo_llm console_history ''hello''))
     = [[SystemMessage (chatbot_system_prompt demo_context)] @ drop 4 console_history
        @ [HumanMessage ''hello'']]
   \<and> prompts (snd (get_message demo_server bot_request))
     = [[SystemMessage (main_system_prompt demo_context)]
        @ map (\<lambda>m. if msg_role m = ''user'' then HumanMessage (msg_content m)
                    else AIMessage (msg_content m))
            (filter (\<lambda>m. msg_role m = ''user'' \<or> msg_role m = ''bot'') (drop 4 bot_history))
        @ [HumanMessage ''hello'']]"
proof -
  have content: "strip (req_content bot_request) = ''hello''"
    by (simp add: bot_request_def demo_strip_hello)
  have nonblank: "strip (req_content bot_request) \<noteq> []"
    by (simp add: content)
  have retrieved: "main_retrieve_context demo_rag (strip (req_content bot_request)) 3
                     = Inr (demo_context, [''https://example.com/services''])"
    by (simp add: content demo_main_context)
  have turns: "req_conversation_history bot_request = Some bot_history"
    by (simp add: bot_request_def)
  from prompt_window [OF demo_history_lengths(1) demo_chatbot_context demo_history_lengths(2)
         demo_server_fields nonblank retrieved turns, of demo_llm]
  show ?thesis by (simp only: content)
qed

text \<open>
  C8, as stated, fails: a message of three spaces is not turned away as an input
  error. The endpoint, initialised, answers 500 (its own 400 is caught by the
  \<open>except\<close> of the \<open>try\<close> that raises it); the console loop prints nothing for it
  and reads the next line.
\<close>

theorem blank_message_not_an_input_error:
  "get_message demo_server blank_request
     = (Inl (HTTPException 500
               ''Error processing your message: 400: Message content cannot be empty''),
        [Printed ''Error processing message: 400: Message content cannot be empty''])
   \<and> chat_loop demo_rag demo_llm [''   '', ''quit''] console_history []
       = (Inr (), console_history, [Printed ''Chatbot: Goodbye! Have a great day!''])"
  by code_simp

lemma chat_loop_quit:
  assumes "lower (strip line) \<in> set [''quit'', ''exit'', ''bye'']"
  shows "chat_loop rag model (line # lines) history out
           = (Inr (), history, out @ [Printed ''Chatbot: Goodbye! Have a great day!''])"
  using assms by (simp add: Let_def)

lemma chat_loop_eof:
  "chat_loop rag model [] history out = (Inl (Exception ''EOF when reading a line''), history, out)"
  by simp

lemma demo_quit: "lower (strip ''quit'') \<in> set [''quit'', ''exit'', ''bye'']"
  by code_simp

text \<open>
  C8, amended: a message made of whitespace only (the empty message included) causes no
  retrieval and no model call in either variant. The endpoint answers with an error
  and no reply. The console loop prints nothing, keeps the history and reads the next
  line: followed by a quit word the session ends with the farewell alone, and followed
  by the end of input it ends in \<open>EOFError\<close> with nothing done.
\<close>

theorem blank_message_skipped_without_calls:
  assumes "\<forall>c \<in> set (req_content request). isspace c"
    and "\<forall>c \<in> set line. isspace c"
    and "lower (strip next_line) \<in> set [''quit'', ''exit'', ''bye'']"
  shows "isl (fst (get_message srv request))
         \<and> filter is_call (snd (get_message srv request)) = []
         \<and> chat_loop rag model (line # lines) history out
             = chat_loop rag model lines history out
         \<and> chat_loop rag model (line # next_line # lines) history out
             = (Inr (), history, out @ [Printed ''Chatbot: Goodbye! Have a great day!''])
         \<and> chat_loop rag model [line] history out
             = (Inl (Exception ''EOF when reading a line''), history, out)"
proof -
  have blank: "strip line = []" by (rule strip_blank [OF assms(2)])
  have skip: "\<And>rest. chat_loop rag model (line # rest) history out
                  = chat_loop rag model rest history out"
    by (rule chat_loop_blank [OF blank])
  from get_message_blank [OF strip_blank [OF assms(1)], of srv]
  have "isl (fst (get_message srv request))"
    and "filter is_call (snd (get_message srv request)) = []"
    by simp_all
  moreover have "chat_loop rag model (line # next_line # lines) history out
             = (Inr (), history, out @ [Printed ''Chatbot: Goodbye! Have a great day!''])"
    by (simp only: skip chat_loop_quit [OF assms(3)])
  moreover have "chat_loop rag model [line] history out
             = (Inl (Exception ''EOF when reading a line''), history, out)"
    by (simp only: skip chat_loop_eof)
  ultimately show ?thesis using skip by simp
qed

theorem blank_message_skipped_without_calls_witness:
  "isl (fst (get_message demo_server blank_request))
   \<and> filter is_call (snd (get_message demo_server blank_request)) = []
   \<and> chat_loop demo_rag demo_llm [''   '', ''quit''] console_history []
       = (Inr (), console_history, [] @ [Printed ''Chatbot: Goodbye! Have a great day!''])
   \<and> chat_loop demo_rag demo_llm [''   ''] console_history []
       = (Inl (Exception ''EOF when reading a line''), console_history, [])"
proof -
  have "\<forall>c \<in> set (req_content blank_request). isspace c"
    using demo_blank by (simp add: blank_request_def)
  from blank_message_skipped_without_calls [OF this demo_blank demo_quit,
         of demo_server demo_rag demo_llm "[]" console_history "[]"]
  show ?thesis by blast
qed

lemma demo_failed_events:
  "snd (chat_turn demo_rag failing_llm console_history (strip ''What do you offer?''))
     = [Retrieved ''What do you offer?'' 3,
        Invoked ([SystemMessage (chatbot_system_prompt demo_context)] @ drop 4 console_history
                 @ [HumanMessage ''What do you offer?'']),
        Printed (''Error: rate limit reached'' @ nl)]"
  by code_simp

text \<open>
  C10: in the console loop, a turn whose retrieval or whose model call raises leaves
  the conversation history as it was and prints the error, and the loop reads the next
  line with that history: followed by a quit word the session ends with the turn's
  events and the farewell, and followed by the end of input it ends in \<open>EOFError\<close>
  after the turn's events.
\<close>

theorem failed_turn_then_next_prompt:
  assumes "strip line \<noteq> []"
    and "lower (strip line) \<notin> set [''quit'', ''exit'', ''bye'']"
    and "chatbot_retrieve_context rag (strip line) 3 = Inl e
         \<or> (\<exists>context. chatbot_retrieve_context rag (strip line) 3 = Inr context
              \<and> model ([SystemMessage (chatbot_system_prompt context)] @ last_n 6 history
                        @ [HumanMessage (strip line)]) = Inl e)"
    and "lower (strip next_line) \<in> set [''quit'', ''exit'', ''bye'']"
  shows "fst (chat_turn rag model history (strip line)) = history
         \<and> last (snd (chat_turn rag model history (strip line)))
             = Printed (''Error: '' @ str_exn e @ nl)
         \<and> chat_loop rag model (line # lines) history out
             = chat_loop rag model lines history
                 (out @ snd (chat_turn rag model history (strip line)))
         \<and> chat_loop rag model (line # next_line # lines) history out
             = (Inr (), history,
                out @ snd (chat_turn rag model history (strip line))
                  @ [Printed ''Chatbot: Goodbye! Have a great day!''])
         \<and> chat_loop rag model [line] history out
             = (Inl (Exception ''EOF when reading a line''), history,
                out @ snd (chat_turn rag model history (strip line)))"
proof -
  have kept: "fst (chat_turn rag model history (strip line)) = history"
    and printed: "last (snd (chat_turn rag model history (strip line)))
                    = Printed (''Error: '' @ str_exn e @ nl)"
    using chat_turn_failed [OF assms(3)] by simp_all
  have go_on: "\<And>rest. chat_loop rag model (line # rest) history out
                  = chat_loop rag model rest history
                      (out @ snd (chat_turn rag model history (strip line)))"
    using chat_loop_turn [OF assms(1,2), of rag model _ history out] kept by simp
  have "chat_loop rag model (line # next_line # lines) history out
             = (Inr (), history,
                out @ snd (chat_turn rag model history (strip line))
                  @ [Printed ''Chatbot: Goodbye! Have a great day!''])"
    by (simp only: go_on chat_loop_quit [OF assms(4)] append_assoc)
  moreover have "chat_loop rag model [line] history out
             = (Inl (Exception ''EOF when reading a line''), history,
                out @ snd (chat_turn rag model history (strip line)))"
    by (simp only: go_on chat_loop_eof)
  ultimately show ?thesis using kept printed go_on by simp
qed

theorem failed_turn_then_next_prompt_witness:
  "fst (chat_turn demo_rag failing_llm console_history (strip ''What do you offer?''))
     = console_history
   \<and> snd (chat_turn demo_rag failing_llm console_history (strip ''What do you offer?''))
       = [Retrieved ''What do you offer?'' 3,
          Invoked ([SystemMessage (chatbot_system_prompt demo_context)] @ drop 4 console_history
                   @ [HumanMessage ''What do you offer?'']),
          Printed (''Error: rate limit reached'' @ nl)]
   \<and> chat_loop demo_rag failing_llm [''What do you offer?'', ''quit''] console_history []
       = (Inr (), console_history,
          [] @ snd (chat_turn demo_rag failing_llm console_history (strip ''What do you offer?''))
             @ [Printed ''Chatbot: Goodbye! Have a great day!''])
   \<and> chat_loop demo_rag failing_llm [''What do you offer?''] console_history []
       = (Inl (Exception ''EOF when reading a line''), console_history,
          [] @ snd (chat_turn demo_rag failing_llm console_history
                      (strip ''What do you offer?'')))"
  using failed_turn_then_next_prompt
          [OF demo_question disjI2 [OF demo_failure] demo_quit, of "[]" "[]"]
        demo_failed_events
  by blast

section \<open>Properties of the saved index\<close>

lemma index_round_trip:
  "index_load (index_persist disk path index) path = Inr index"
  by (simp add: index_load_def index_persist_def)

lemma load_after_store:
  "load_existing_vectorstore embedding dist
     (snd (process_and_store_documents split_text embedding dist disk docs))
     = Inr (fst (process_and_store_documents split_text embedding dist disk docs))"
  by (simp add: load_existing_vectorstore_def process_and_store_documents_def Let_def
        index_load_def index_persist_def)

text \<open>
  C9: an index built from any chunks, persisted and loaded again answers every search
  as the built one does, and so the system that \<open>load_existing_vectorstore\<close> loads
  from what \<open>process_and_store_documents\<close> saved retrieves, for every query and
  \<open>k\<close>, the context the freshly built system retrieves. The embedding is a function,
  hence deterministic.
\<close>

theorem loaded_index_answers_as_built:
  "(\<exists>loaded.
      index_load (index_persist disk path (index_build embedding chunks)) path = Inr loaded
      \<and> index_search embedding dist loaded query k
          = index_search embedding dist (index_build embedding chunks) query k)
   \<and> (\<exists>rag.
        load_existing_vectorstore embedding dist
          (snd (process_and_store_documents split_text embedding dist disk docs)) = Inr rag
        \<and> main_retrieve_context rag query k
            = main_retrieve_context
                (fst (process_and_store_documents split_text embedding dist disk docs)) query k
        \<and> chatbot_retrieve_context rag query k
            = chatbot_retrieve_context
                (fst (process_and_store_documents split_text embedding dist disk docs)) query k)"
  by (simp add: index_round_trip load_after_store)

lemma demo_built_answer:
  "main_retrieve_context
     (fst (process_and_store_documents demo_split demo_embedding demo_dist Map.empty demo_pages))
     ''What do you offer?'' 1
   = Inr (''[Source 1: https://example.com/services]'' @ nl @ ''We offer consulting.'',
          [''https://example.com/services''])"
  by code_simp

theorem loaded_index_answers_as_built_witness:
  "\<exists>rag.
     load_existing_vectorstore demo_embedding demo_dist
       (snd (process_and_store_documents demo_split demo_embedding demo_dist Map.empty demo_pages))
       = Inr rag
     \<and> main_retrieve_context rag ''What do you offer?'' 1
         = Inr (''[Source 1: https://example.com/services]'' @ nl @ ''We offer consulting.'',
                [''https://example.com/services''])"
  using loaded_index_answers_as_built
          [of "Map.empty" FAISS_INDEX_PATH demo_embedding "[]" demo_dist
              "''What do you offer?''" 1 demo_split demo_pages]
        demo_built_answer
  by metis

end
